theory Spec2Isabelle
  imports Main
begin

section \<open>Data model (database/init-db.sql)\<close>

text \<open>
  The tables of \<^verbatim>\<open>init-db.sql\<close> as records, their ENUM columns as datatypes.
  INT and DECIMAL columns are mathematical integers (money in minor units; the range
  of a MySQL INT is not modelled), timestamps are integers in milliseconds. The columns
  \<^verbatim>\<open>updated_at\<close>, \<^verbatim>\<open>description\<close> and \<^verbatim>\<open>venue\<close> are read by none of the handlers
  below and are left out. A table is the list of its rows in insertion order; a query
  with \<^verbatim>\<open>WHERE\<close> is a \<open>filter\<close> and \<^verbatim>\<open>rows[0]\<close> its first element.
\<close>

datatype booking_status = Pending | Confirmed | Cancelled | Expired

datatype pay_status = PayPending | PayCompleted | PayFailed | PayRefunded

datatype event_status = Active | Inactive | EventCancelled

datatype pay_method = CreditCard | DebitCard | Paypal | BankTransfer

record event =
  e_id :: int
  title :: string
  event_date :: int
  total_tickets :: int
  available_tickets :: int
  price :: int
  e_status :: event_status

record booking =
  b_id :: int
  user_id :: int
  event_id :: int
  ticket_count :: int
  total_amount :: int
  booking_reference :: string
  status :: booking_status
  payment_status :: pay_status
  created_at :: int
  expires_at :: int

record payment =
  p_id :: int
  booking_id :: int
  amount :: int
  payment_method :: pay_method
  payment_gateway_id :: string
  p_status :: pay_status
  p_created_at :: int

text \<open>
  The Redis keys of the booking service have the one form
  \<^verbatim>\<open>event_booking_lock:${eventId}\<close>; the store maps a key to the owner token. The
  expiry of a key after its TTL is the store's own step, not a step of a handler.
\<close>

datatype lock_key = EventBookingLock int

record system =
  events :: "event list"
  bookings :: "booking list"
  payments :: "payment list"
  next_booking_id :: int
  next_payment_id :: int
  locks :: "lock_key \<rightharpoonup> string"

text \<open>
  The state the handlers of \<^verbatim>\<open>booking-service/src/app.js\<close> run on: the three
  tables, the AUTO_INCREMENT counters of bookings and payments, and the lock store. The
  database and Redis are taken to answer every statement; a handler's
  \<^verbatim>\<open>sendToQueue\<close> calls come after its commit, are best-effort, and touch neither, so
  they are left out of the handlers below.

  The JSON error bodies of the booking service, and the HTTP status sent with each.
\<close>

datatype error =
    MissingRequiredFields
  | InvalidTicketCount
  | LockBusy
  | EventNotFound
  | PastEvent
  | OnlyAvailable int
  | AlreadyBooked
  | BookingNotFound
  | AlreadyCancelled
  | TooLateToCancel
  | NotPending
  | InternalError

fun http_status :: "error \<Rightarrow> nat" where
  "http_status MissingRequiredFields = 400"
| "http_status InvalidTicketCount = 400"
| "http_status LockBusy = 429"
| "http_status EventNotFound = 404"
| "http_status PastEvent = 400"
| "http_status (OnlyAvailable n) = 400"
| "http_status AlreadyBooked = 400"
| "http_status BookingNotFound = 404"
| "http_status AlreadyCancelled = 400"
| "http_status TooLateToCancel = 400"
| "http_status NotPending = 400"
| "http_status InternalError = 500"

section \<open>Distributed lock (booking-service/src/app.js, acquireLock and releaseLock)\<close>

text \<open>
  \<^verbatim>\<open>SET key lockValue PX .. NX\<close>: the value is stored only when the key is absent, and
  the caller gets its token back only then. The token is the fresh \<^verbatim>\<open>uuidv4()\<close>,
  here an argument.
\<close>

definition acquireLock ::
  "'k \<Rightarrow> string \<Rightarrow> ('k \<rightharpoonup> string) \<Rightarrow> string option \<times> ('k \<rightharpoonup> string)" where
  "acquireLock key lockValue store =
     (case store key of
        None \<Rightarrow> (Some lockValue, store(key \<mapsto> lockValue))
      | Some held \<Rightarrow> (None, store))"

text \<open>
  The Lua script of \<^verbatim>\<open>releaseLock\<close>:
  \<^verbatim>\<open>if redis.call("get", KEYS[1]) == ARGV[1] then return redis.call("del", KEYS[1]) else return 0 end\<close>
\<close>

definition releaseLock :: "'k \<Rightarrow> string \<Rightarrow> ('k \<rightharpoonup> string) \<Rightarrow> ('k \<rightharpoonup> string)" where
  "releaseLock key lockValue store =
     (if store key = Some lockValue then store(key := None) else store)"

section \<open>Reservation (booking-service/src/app.js, POST /api/bookings)\<close>

text \<open>
  A field of the request body is absent (\<open>None\<close>) or a whole number, as the
  service's clients send it. JavaScript's \<^verbatim>\<open>!v\<close> holds of an absent field and of
  the number 0.
\<close>

definition falsy :: "int option \<Rightarrow> bool" where
  "falsy v = (case v of None \<Rightarrow> True | Some n \<Rightarrow> n = 0)"

record created =
  r_bookingId :: int
  r_bookingReference :: string
  r_totalAmount :: int
  r_ticketCount :: int
  r_eventTitle :: string
  r_expiresAt :: int

text \<open>
  \<^verbatim>\<open>UPDATE events SET available_tickets = available_tickets + ? WHERE id = ?\<close>;
  the reservation runs it with the negated count.
\<close>

definition add_available :: "int \<Rightarrow> int \<Rightarrow> event list \<Rightarrow> event list" where
  "add_available eid n es =
     map (\<lambda>e. if e_id e = eid then e\<lparr>available_tickets := available_tickets e + n\<rparr> else e) es"

text \<open>
  The statements between \<^verbatim>\<open>beginTransaction\<close> and \<^verbatim>\<open>commit\<close>. Every early return
  rolls back, so it hands back the state it was given. \<open>js_now\<close> is the handler's
  \<^verbatim>\<open>new Date()\<close>, \<open>sql_now\<close> the \<^verbatim>\<open>NOW()\<close> of the INSERT, \<open>reply_now\<close> the
  \<^verbatim>\<open>Date.now()\<close> of the reply; the booking id is the table's AUTO_INCREMENT value,
  the reference the handler's random string. The users table is not part of the state:
  the INSERT's foreign key on \<^verbatim>\<open>user_id\<close> is taken to hold, the caller being an
  authenticated user.
\<close>

definition reserve_tx ::
  "int \<Rightarrow> int \<Rightarrow> int \<Rightarrow> string \<Rightarrow> int \<Rightarrow> int \<Rightarrow> int \<Rightarrow> system \<Rightarrow> (error + created) \<times> system" where
  "reserve_tx userId eventId ticketCount bookingReference js_now sql_now reply_now s =
     (case filter (\<lambda>e. e_id e = eventId \<and> e_status e = Active) (events s) of
        [] \<Rightarrow> (Inl EventNotFound, s)
      | ev # _ \<Rightarrow>
          if event_date ev \<le> js_now then (Inl PastEvent, s)
          else if available_tickets ev < ticketCount
            then (Inl (OnlyAvailable (available_tickets ev)), s)
          else if filter (\<lambda>b. user_id b = userId \<and> event_id b = eventId \<and>
                      (status b = Pending \<or> status b = Confirmed)) (bookings s) \<noteq> []
            then (Inl AlreadyBooked, s)
          else
            let totalAmount = price ev * ticketCount;
                bookingId = next_booking_id s;
                row = \<lparr>b_id = bookingId, user_id = userId, event_id = eventId,
                       ticket_count = ticketCount, total_amount = totalAmount,
                       booking_reference = bookingReference, status = Pending,
                       payment_status = PayPending, created_at = sql_now,
                       expires_at = sql_now + 15 * 60 * 1000\<rparr>
            in (Inr \<lparr>r_bookingId = bookingId, r_bookingReference = bookingReference,
                      r_totalAmount = totalAmount, r_ticketCount = ticketCount,
                      r_eventTitle = title ev, r_expiresAt = reply_now + 15 * 60 * 1000\<rparr>,
                s\<lparr>bookings := bookings s @ [row],
                  next_booking_id := bookingId + 1,
                  events := add_available eventId (- ticketCount) (events s)\<rparr>))"

text \<open>
  The handler: the two input checks, then the lock, then the transaction, and in
  \<^verbatim>\<open>finally\<close> the release of the lock with the token that acquired it.
\<close>

definition reserve ::
  "int option \<Rightarrow> int option \<Rightarrow> int option \<Rightarrow> string \<Rightarrow> string \<Rightarrow> int \<Rightarrow> int \<Rightarrow> int \<Rightarrow> system
     \<Rightarrow> (error + created) \<times> system" where
  "reserve userId eventId ticketCount lockValue bookingReference js_now sql_now reply_now s =
     (if falsy userId \<or> falsy eventId \<or> falsy ticketCount then (Inl MissingRequiredFields, s)
      else case (userId, eventId, ticketCount) of
        (Some uid, Some eid, Some n) \<Rightarrow>
          if n \<le> 0 \<or> n > 10 then (Inl InvalidTicketCount, s)
          else (case acquireLock (EventBookingLock eid) lockValue (locks s) of
              (None, _) \<Rightarrow> (Inl LockBusy, s)
            | (Some tok, held) \<Rightarrow>
                (case reserve_tx uid eid n bookingReference js_now sql_now reply_now
                        (s\<lparr>locks := held\<rparr>) of
                   (res, s') \<Rightarrow>
                     (res, s'\<lparr>locks := releaseLock (EventBookingLock eid) tok (locks s')\<rparr>)))
      | _ \<Rightarrow> (Inl MissingRequiredFields, s))"

section \<open>Cancellation (POST /api/bookings/:bookingId/cancel)\<close>

text \<open>
  The 24-hour rule reads the event's date only for a confirmed booking;
  \<^verbatim>\<open>events[0].event_date\<close> throws when the event row is missing, which the handler's
  \<^verbatim>\<open>catch\<close> answers with status 500 after a rollback. \<^verbatim>\<open>(eventDate - now) / 3600000 < 24\<close>
  on millisecond timestamps is \<open>eventDate - now < 24 * 3600000\<close>. The reply of a
  successful call carries \<^verbatim>\<open>refundAmount\<close>.
\<close>

definition cancel_blocked :: "booking \<Rightarrow> int \<Rightarrow> system \<Rightarrow> error option" where
  "cancel_blocked bk js_now s =
     (if status bk = Confirmed then
        (case filter (\<lambda>e. e_id e = event_id bk) (events s) of
           [] \<Rightarrow> Some InternalError
         | ev # _ \<Rightarrow> if event_date ev - js_now < 24 * 3600000 then Some TooLateToCancel else None)
      else None)"

definition cancel :: "int \<Rightarrow> int \<Rightarrow> int \<Rightarrow> system \<Rightarrow> (error + int) \<times> system" where
  "cancel bookingId userId js_now s =
     (case filter (\<lambda>b. b_id b = bookingId \<and> user_id b = userId) (bookings s) of
        [] \<Rightarrow> (Inl BookingNotFound, s)
      | bk # _ \<Rightarrow>
          if status bk = Cancelled then (Inl AlreadyCancelled, s)
          else (case cancel_blocked bk js_now s of
              Some err \<Rightarrow> (Inl err, s)
            | None \<Rightarrow>
                (Inr (if payment_status bk = PayCompleted then total_amount bk else 0),
                 s\<lparr>bookings :=
                      map (\<lambda>b. if b_id b = bookingId then b\<lparr>status := Cancelled\<rparr> else b)
                        (bookings s),
                   events := add_available (event_id bk) (ticket_count bk) (events s)\<rparr>)))"

section \<open>Payment confirmation (POST /api/bookings/:bookingId/confirm-payment)\<close>

text \<open>
  The handler binds \<^verbatim>\<open>req.body.paymentMethod\<close> and \<^verbatim>\<open>req.body.paymentId\<close>, two
  strings it does not validate, into its \<^verbatim>\<open>INSERT INTO payments\<close>. The table declares
  \<^verbatim>\<open>payment_method ENUM('credit_card', 'debit_card', 'paypal', 'bank_transfer') NOT NULL\<close>
  and \<^verbatim>\<open>payment_gateway_id VARCHAR(255)\<close>, and refuses a row whose strings it cannot
  store; the INSERT then throws, and the handler's \<^verbatim>\<open>catch\<close> rolls the transaction
  back (the UPDATE of the booking with it) and answers 500.

  Which strings the server reads as which member is the server's matter (its collation
  decides on letter case, for one), so the reading is an argument of the handler:
  \<open>stored_as paymentMethod paymentId\<close> is the pair of column values the table
  stores, or \<open>None\<close> when it refuses the row. \<open>declared_columns\<close> is the reading that
  takes the four member strings as they are declared and a gateway id of at most 255
  characters.
\<close>

definition enum_member :: "string \<Rightarrow> pay_method option" where
  "enum_member paymentMethod =
     (if paymentMethod = ''credit_card'' then Some CreditCard
      else if paymentMethod = ''debit_card'' then Some DebitCard
      else if paymentMethod = ''paypal'' then Some Paypal
      else if paymentMethod = ''bank_transfer'' then Some BankTransfer
      else None)"

definition declared_columns :: "string \<Rightarrow> string \<Rightarrow> (pay_method \<times> string) option" where
  "declared_columns paymentMethod paymentId =
     (case enum_member paymentMethod of
        None \<Rightarrow> None
      | Some method \<Rightarrow> if length paymentId \<le> 255 then Some (method, paymentId) else None)"

definition confirm_payment ::
  "(string \<Rightarrow> string \<Rightarrow> (pay_method \<times> string) option) \<Rightarrow>
   int \<Rightarrow> string \<Rightarrow> string \<Rightarrow> int \<Rightarrow> system \<Rightarrow> (error + unit) \<times> system" where
  "confirm_payment stored_as bookingId paymentId paymentMethod sql_now s =
     (case filter (\<lambda>b. b_id b = bookingId) (bookings s) of
        [] \<Rightarrow> (Inl BookingNotFound, s)
      | bk # _ \<Rightarrow>
          if status bk \<noteq> Pending then (Inl NotPending, s)
          else (case stored_as paymentMethod paymentId of
              None \<Rightarrow> (Inl InternalError, s)
            | Some (method, gateway_id) \<Rightarrow>
                (Inr (),
                 s\<lparr>bookings :=
                      map (\<lambda>b. if b_id b = bookingId
                                then b\<lparr>status := Confirmed, payment_status := PayCompleted\<rparr>
                                else b)
                        (bookings s),
                   payments := payments s @
                      [\<lparr>p_id = next_payment_id s, booking_id = bookingId,
                        amount = total_amount bk, payment_method = method,
                        payment_gateway_id = gateway_id, p_status = PayCompleted,
                        p_created_at = sql_now\<rparr>],
                   next_payment_id := next_payment_id s + 1\<rparr>)))"

section \<open>Expiry sweep (POST /api/bookings/cleanup-expired)\<close>

text \<open>
  The handler runs two statements with a \<^verbatim>\<open>NOW()\<close> of their own: the SELECT that
  finds the expired pending bookings, at \<open>select_now\<close>, and after the loop over its rows
  the UPDATE that marks every pending booking with \<^verbatim>\<open>expires_at < NOW()\<close>, at
  \<open>update_now\<close>. The reply carries the number of selected rows.
\<close>

definition is_expired :: "int \<Rightarrow> booking \<Rightarrow> bool" where
  "is_expired now b = (status b = Pending \<and> expires_at b < now)"

primrec restore_tickets :: "booking list \<Rightarrow> event list \<Rightarrow> event list" where
  "restore_tickets [] es = es"
| "restore_tickets (b # bs) es =
     restore_tickets bs (add_available (event_id b) (ticket_count b) es)"

definition cleanup_expired :: "int \<Rightarrow> int \<Rightarrow> system \<Rightarrow> nat \<times> system" where
  "cleanup_expired select_now update_now s =
     (let expiredBookings = filter (is_expired select_now) (bookings s) in
      if expiredBookings = [] then (0, s)
      else (length expiredBookings,
            s\<lparr>events := restore_tickets expiredBookings (events s),
              bookings :=
                map (\<lambda>b. if is_expired update_now b then b\<lparr>status := Expired\<rparr> else b)
                  (bookings s)\<rparr>))"

section \<open>Payment worker (payment service, processPayment)\<close>

text \<open>
  A message of the \<^verbatim>\<open>payment_processing\<close> queue: the payload the worker parses
  from \<^verbatim>\<open>msg.content\<close> (the booking service sends \<^verbatim>\<open>JSON.stringify\<close> of it) and
  \<^verbatim>\<open>msg.properties.headers\<close>, which may be absent, or present without a
  \<^verbatim>\<open>retryCount\<close>.
\<close>

record payment_data =
  pd_bookingId :: int
  pd_userId :: int
  pd_amount :: int
  pd_bookingReference :: string

record message =
  content :: payment_data
  headers :: "int option option"

datatype queue_body =
    PaymentWork payment_data
  | PaymentSucceeded payment_data string
  | PaymentFailed payment_data string

text \<open>
  What the worker does: the two calls of the booking service
  (\<^verbatim>\<open>confirm-payment\<close> with the gateway's payment id, \<^verbatim>\<open>cancel\<close> with reason
  "Payment failed"), \<^verbatim>\<open>sendToQueue(queue, body, {headers: {retryCount}})\<close> and
  \<^verbatim>\<open>ack(msg)\<close>, at once or inside a \<^verbatim>\<open>setTimeout\<close> callback after a delay in
  milliseconds.
\<close>

datatype action =
    PostConfirmPayment int string
  | PostCancel int int
  | SendToQueue string queue_body "int option"
  | Ack message

datatype step = Now action | Later int "action list"

text \<open>
  How the \<^verbatim>\<open>try\<close> block ended: the gateway charged and the confirm call returned, the
  gateway declined and the cancel call returned, or some call of the block threw
  (\<^verbatim>\<open>axios.post\<close> throws on every answer that is not 2xx); what ran before the throw
  is not recorded.
\<close>

datatype try_outcome = Charged string | Declined string | Raised

text \<open>\<^verbatim>\<open>(msg.properties.headers && msg.properties.headers.retryCount) || 0\<close>\<close>

definition retryCount_of :: "message \<Rightarrow> int" where
  "retryCount_of msg =
     (case headers msg of
        None \<Rightarrow> 0
      | Some h \<Rightarrow> (case h of None \<Rightarrow> 0 | Some c \<Rightarrow> c))"

definition processPayment :: "message \<Rightarrow> try_outcome \<Rightarrow> step list" where
  "processPayment msg outcome =
     (case outcome of
        Charged paymentId \<Rightarrow>
          [Now (PostConfirmPayment (pd_bookingId (content msg)) paymentId),
           Now (SendToQueue ''payment_results'' (PaymentSucceeded (content msg) paymentId) None),
           Now (Ack msg)]
      | Declined err \<Rightarrow>
          [Now (PostCancel (pd_bookingId (content msg)) (pd_userId (content msg))),
           Now (SendToQueue ''payment_results'' (PaymentFailed (content msg) err) None),
           Now (Ack msg)]
      | Raised \<Rightarrow>
          (let retryCount = retryCount_of msg in
           if retryCount < 3 then
             [Later (5000 * (retryCount + 1))
                [SendToQueue ''payment_processing'' (PaymentWork (content msg))
                   (Some (retryCount + 1)),
                 Ack msg]]
           else [Now (Ack msg)]))"

text \<open>
  The queue hands a message sent to \<^verbatim>\<open>payment_processing\<close> back to the worker.
  \<open>processings outs msg\<close> counts the calls of \<open>processPayment\<close> that one message
  of the booking service causes, when the successive calls end as \<open>outs\<close> says.
\<close>

fun requeued_by :: "action \<Rightarrow> message option" where
  "requeued_by (SendToQueue q (PaymentWork pd) h) =
     (if q = ''payment_processing'' then Some \<lparr>content = pd, headers = Some h\<rparr> else None)"
| "requeued_by _ = None"

fun requeued :: "step list \<Rightarrow> message list" where
  "requeued [] = []"
| "requeued (Now a # rest) = List.map_filter requeued_by [a] @ requeued rest"
| "requeued (Later d as # rest) = List.map_filter requeued_by as @ requeued rest"

fun processings :: "try_outcome list \<Rightarrow> message \<Rightarrow> nat" where
  "processings [] msg = 0"
| "processings (out # outs) msg =
     Suc (case requeued (processPayment msg out) of
            [] \<Rightarrow> 0
          | msg' # _ \<Rightarrow> processings outs msg')"

section \<open>The inventory equation\<close>

text \<open>
  The tickets an event has out: the sum of \<open>ticket_count\<close> over its pending and
  confirmed bookings. The equation of the data model: available plus booked is total,
  for every event row.
\<close>

definition holds_tickets :: "booking \<Rightarrow> bool" where
  "holds_tickets b = (status b = Pending \<or> status b = Confirmed)"

definition booked :: "int \<Rightarrow> booking list \<Rightarrow> int" where
  "booked eid bs =
     sum_list (map ticket_count (filter (\<lambda>b. event_id b = eid \<and> holds_tickets b) bs))"

definition inventory_ok :: "system \<Rightarrow> bool" where
  "inventory_ok s =
     list_all (\<lambda>e. available_tickets e + booked (e_id e) (bookings s) = total_tickets e)
       (events s)"

text \<open>
  What one booking row holds of an event, and what a list of swept rows gives back to it.
\<close>

definition tickets_held :: "int \<Rightarrow> booking \<Rightarrow> int" where
  "tickets_held eid b = (if event_id b = eid \<and> holds_tickets b then ticket_count b else 0)"

definition returned :: "int \<Rightarrow> booking list \<Rightarrow> int" where
  "returned eid sel = sum_list (map ticket_count (filter (\<lambda>b. event_id b = eid) sel))"

section \<open>Example states\<close>

text \<open>
  An event of two tickets at 50.00, far enough ahead to cancel; booking A holds both
  tickets for user 7, with the 15-minute window of its creation at time 1000.
\<close>

definition concert :: event where
  "concert = \<lparr>e_id = 1, title = ''Concert Night 2025'', event_date = 400000000,
     total_tickets = 2, available_tickets = 2, price = 5000, e_status = Active\<rparr>"

definition booking_a :: booking where
  "booking_a = \<lparr>b_id = 1, user_id = 7, event_id = 1, ticket_count = 2, total_amount = 10000,
     booking_reference = ''BK1000ABCDE'', status = Pending, payment_status = PayPending,
     created_at = 1000, expires_at = 901000\<rparr>"

definition box_office :: system where
  "box_office = \<lparr>events = [concert], bookings = [], payments = [],
     next_booking_id = 1, next_payment_id = 1, locks = Map.empty\<rparr>"

definition sold_out :: system where
  "sold_out = \<lparr>events = [concert\<lparr>available_tickets := 0\<rparr>], bookings = [booking_a],
     payments = [], next_booking_id = 2, next_payment_id = 1, locks = Map.empty\<rparr>"

definition paid :: system where
  "paid = \<lparr>events = [concert\<lparr>available_tickets := 0\<rparr>],
     bookings = [booking_a\<lparr>status := Confirmed, payment_status := PayCompleted\<rparr>],
     payments = [\<lparr>p_id = 1, booking_id = 1, amount = 10000, payment_method = CreditCard,
        payment_gateway_id = ''PAY_1'', p_status = PayCompleted, p_created_at = 5000\<rparr>],
     next_booking_id = 2, next_payment_id = 2, locks = Map.empty\<rparr>"

text \<open>The state the sweep leaves when booking A was never paid.\<close>

definition swept :: system where
  "swept = \<lparr>events = [concert], bookings = [booking_a\<lparr>status := Expired\<rparr>],
     payments = [], next_booking_id = 2, next_payment_id = 1, locks = Map.empty\<rparr>"

text \<open>
  An event of ten tickets with two unpaid bookings whose windows end one second apart.
\<close>

definition arena :: event where
  "arena = \<lparr>e_id = 2, title = ''Sports Championship'', event_date = 400000000,
     total_tickets = 10, available_tickets = 5, price = 3000, e_status = Active\<rparr>"

definition booking_b :: booking where
  "booking_b = \<lparr>b_id = 2, user_id = 7, event_id = 2, ticket_count = 2, total_amount = 6000,
     booking_reference = ''BK1000FGHIJ'', status = Pending, payment_status = PayPending,
     created_at = 1000, expires_at = 901000\<rparr>"

definition booking_c :: booking where
  "booking_c = \<lparr>b_id = 3, user_id = 8, event_id = 2, ticket_count = 3, total_amount = 9000,
     booking_reference = ''BK2000KLMNO'', status = Pending, payment_status = PayPending,
     created_at = 2000, expires_at = 902000\<rparr>"

definition two_unpaid :: system where
  "two_unpaid = \<lparr>events = [arena], bookings = [booking_b, booking_c], payments = [],
     next_booking_id = 4, next_payment_id = 1, locks = Map.empty\<rparr>"

text \<open>The payment work item the booking service publishes for booking A.\<close>

definition work_a :: payment_data where
  "work_a = \<lparr>pd_bookingId = 1, pd_userId = 7, pd_amount = 10000,
     pd_bookingReference = ''BK1000ABCDE''\<rparr>"

section \<open>Lock safety\<close>



lemma unlock_after_lock:
  "store key = None \<Longrightarrow> releaseLock key tok (store(key \<mapsto> tok)) = store"
  by (auto simp: releaseLock_def)

section \<open>Reservation: input checks and validation failures\<close>

lemma falsy_simps [simp]: "falsy None" "falsy (Some n) = (n = 0)"
  by (simp_all add: falsy_def)

text \<open>
  C9. A request whose userId, eventId or ticketCount is absent or 0 gets the
  missing-fields error and leaves the whole state, the lock store included, as it was,
  whoever holds the event's lock; the range error is the answer exactly for requests
  whose three fields are present and non-zero with a ticketCount below 1 or above 10,
  and it leaves the state as it was too.
\<close>

theorem reserve_input_checks:
  "(falsy userId \<or> falsy eventId \<or> falsy ticketCount \<longrightarrow>
      reserve userId eventId ticketCount tok ref t1 t2 t3 s = (Inl MissingRequiredFields, s)) \<and>
   (fst (reserve userId eventId ticketCount tok ref t1 t2 t3 s) = Inl InvalidTicketCount \<longleftrightarrow>
      \<not> falsy userId \<and> \<not> falsy eventId \<and>
      (\<exists>n. ticketCount = Some n \<and> n \<noteq> 0 \<and> (n < 1 \<or> 10 < n))) \<and>
   (fst (reserve userId eventId ticketCount tok ref t1 t2 t3 s) = Inl InvalidTicketCount \<longrightarrow>
      snd (reserve userId eventId ticketCount tok ref t1 t2 t3 s) = s)"
  apply (cases userId; cases eventId; cases ticketCount)
         apply (auto simp: reserve_def reserve_tx_def acquireLock_def Let_def
      split: option.splits list.splits prod.splits if_splits)
  done

theorem reserve_input_checks_witness:
  "falsy (Some 0) \<and>
   reserve (Some 7) (Some 1) (Some 0) ''t'' ''BK'' 1000 1000 1000
       (sold_out\<lparr>locks := [EventBookingLock 1 \<mapsto> ''other'']\<rparr>)
     = (Inl MissingRequiredFields, sold_out\<lparr>locks := [EventBookingLock 1 \<mapsto> ''other'']\<rparr>) \<and>
   reserve (Some 7) None (Some 2) ''t'' ''BK'' 1000 1000 1000 box_office
     = (Inl MissingRequiredFields, box_office) \<and>
   fst (reserve (Some 7) (Some 1) (Some 11) ''t'' ''BK'' 1000 1000 1000 box_office)
     = Inl InvalidTicketCount \<and>
   snd (reserve (Some 7) (Some 1) (Some 11) ''t'' ''BK'' 1000 1000 1000 box_office)
     = box_office"
  using
    reserve_input_checks [of "Some 7" "Some 1" "Some 0" "''t''" "''BK''" 1000 1000 1000
      "sold_out\<lparr>locks := [EventBookingLock 1 \<mapsto> ''other'']\<rparr>"]
    reserve_input_checks [of "Some 7" None "Some 2" "''t''" "''BK''" 1000 1000 1000 box_office]
    reserve_input_checks [of "Some 7" "Some 1" "Some 11" "''t''" "''BK''" 1000 1000 1000 box_office]
  by simp

lemma reserve_tx_lock_frame:
  "reserve_tx u e n r t1 t2 t3 (s\<lparr>locks := l\<rparr>) =
     (fst (reserve_tx u e n r t1 t2 t3 s), (snd (reserve_tx u e n r t1 t2 t3 s))\<lparr>locks := l\<rparr>)"
  by (simp add: reserve_tx_def Let_def split: list.splits)

lemma reserve_tx_locks: "locks (snd (reserve_tx u e n r t1 t2 t3 s)) = locks s"
  by (simp add: reserve_tx_def Let_def split: list.splits)

text \<open>
  With valid fields and the event's lock free, the handler is its transaction: the lock
  it took is gone again when it returns.
\<close>

lemma reserve_runs_tx:
  assumes "u \<noteq> 0" "e \<noteq> 0" "0 < n" "n \<le> 10" "locks s (EventBookingLock e) = None"
  shows "reserve (Some u) (Some e) (Some n) tok ref t1 t2 t3 s = reserve_tx u e n ref t1 t2 t3 s"
proof -
  obtain res s' where tx: "reserve_tx u e n ref t1 t2 t3 s = (res, s')"
    by (cases "reserve_tx u e n ref t1 t2 t3 s")
  have l: "locks s' = locks s"
    using reserve_tx_locks [of u e n ref t1 t2 t3 s] tx by simp
  have "reserve (Some u) (Some e) (Some n) tok ref t1 t2 t3 s =
          (res, s'\<lparr>locks := releaseLock (EventBookingLock e) tok
                               ((locks s)(EventBookingLock e \<mapsto> tok))\<rparr>)"
    using assms by (simp add: reserve_def acquireLock_def reserve_tx_lock_frame tx)
  also have "\<dots> = (res, s')"
    using assms(5) l by (simp add: unlock_after_lock)
  finally show ?thesis by (simp add: tx)
qed

lemma reserve_busy:
  assumes "u \<noteq> 0" "e \<noteq> 0" "0 < n" "n \<le> 10" "locks s (EventBookingLock e) = Some held"
  shows "reserve (Some u) (Some e) (Some n) tok ref t1 t2 t3 s = (Inl LockBusy, s)"
  using assms by (simp add: reserve_def acquireLock_def)

lemma reserve_either:
  "(\<exists>u e n. reserve userId eventId ticketCount tok ref t1 t2 t3 s
              = reserve_tx u e n ref t1 t2 t3 s) \<or>
   snd (reserve userId eventId ticketCount tok ref t1 t2 t3 s) = s"
proof (cases "\<exists>u e n. userId = Some u \<and> eventId = Some e \<and> ticketCount = Some n \<and>
    u \<noteq> 0 \<and> e \<noteq> 0 \<and> 0 < n \<and> n \<le> 10 \<and> locks s (EventBookingLock e) = None")
  case True
  then show ?thesis using reserve_runs_tx by blast
next
  case False
  then have "snd (reserve userId eventId ticketCount tok ref t1 t2 t3 s) = s"
    by (cases userId; cases eventId; cases ticketCount)
      (auto simp: reserve_def acquireLock_def split: option.splits)
  then show ?thesis by simp
qed

lemma reserve_tx_error:
  "fst (reserve_tx u e n r t1 t2 t3 s) = Inl err \<Longrightarrow> snd (reserve_tx u e n r t1 t2 t3 s) = s"
  by (simp add: reserve_tx_def Let_def split: list.splits if_splits)



section \<open>Payment confirmation\<close>

lemma filter_updated_rows:
  "(\<And>x. P x \<Longrightarrow> Q x) \<Longrightarrow> (\<And>x. P (f x) = P x) \<Longrightarrow>
   filter P (map (\<lambda>x. if Q x then f x else x) xs) = map f (filter P xs)"
  by (induction xs) auto



section \<open>Cancellation: refund and returned tickets\<close>

text \<open>
  C8. When Cancel succeeds on the booking it read (the first row of that id and user),
  the refundAmount of the reply is the booking's total_amount if its payment_status is
  completed and 0 otherwise, and every event row of the booking's event has the
  booking's ticket_count added to available_tickets, the other event rows untouched.
\<close>

theorem cancel_refund_and_tickets:
  assumes "filter (\<lambda>b. b_id b = bid \<and> user_id b = uid) (bookings s) = bk # rest"
    and "cancel bid uid now s = (Inr refund, s')"
  shows
    "refund = (if payment_status bk = PayCompleted then total_amount bk else 0) \<and>
     events s' =
       map (\<lambda>e. if e_id e = event_id bk
                 then e\<lparr>available_tickets := available_tickets e + ticket_count bk\<rparr> else e)
         (events s)"
  using assms
  by (auto simp: cancel_def add_available_def split: if_splits option.splits)

theorem cancel_refund_and_tickets_witness:
  "cancel 1 7 1000000 paid =
     (Inr 10000,
      paid\<lparr>bookings := [booking_a\<lparr>status := Cancelled, payment_status := PayCompleted\<rparr>],
           events := [concert]\<rparr>) \<and>
   cancel 1 7 1000000 sold_out =
     (Inr 0, sold_out\<lparr>bookings := [booking_a\<lparr>status := Cancelled\<rparr>], events := [concert]\<rparr>)"
  using
    cancel_refund_and_tickets [of 1 7 paid
      "booking_a\<lparr>status := Confirmed, payment_status := PayCompleted\<rparr>" "[]" 1000000 10000
      "paid\<lparr>bookings := [booking_a\<lparr>status := Cancelled, payment_status := PayCompleted\<rparr>],
            events := [concert]\<rparr>"]
    cancel_refund_and_tickets [of 1 7 sold_out booking_a "[]" 1000000 0
      "sold_out\<lparr>bookings := [booking_a\<lparr>status := Cancelled\<rparr>], events := [concert]\<rparr>"]
  by (simp add: paid_def sold_out_def concert_def booking_a_def cancel_def cancel_blocked_def add_available_def)

section \<open>The payment_status column\<close>

lemma reserve_tx_payment_status:
  "\<exists>new. map payment_status (bookings (snd (reserve_tx u e n ref t1 t2 t3 s))) =
           map payment_status (bookings s) @ new \<and> list_all (\<lambda>p. p = PayPending) new"
  by (simp add: reserve_tx_def Let_def split: list.splits)

lemma reserve_payment_status:
  "\<exists>new. map payment_status
            (bookings (snd (reserve userId eventId ticketCount tok ref t1 t2 t3 s))) =
           map payment_status (bookings s) @ new \<and> list_all (\<lambda>p. p = PayPending) new"
proof -
  consider (tx) u e n where
      "reserve userId eventId ticketCount tok ref t1 t2 t3 s = reserve_tx u e n ref t1 t2 t3 s"
    | (same) "snd (reserve userId eventId ticketCount tok ref t1 t2 t3 s) = s"
    using reserve_either [of userId eventId ticketCount tok ref t1 t2 t3 s] by blast
  then show ?thesis
  proof cases
    case tx
    then show ?thesis
      using reserve_tx_payment_status [of u e n ref t1 t2 t3 s] by simp
  next
    case same
    then show ?thesis by simp
  qed
qed

lemma confirm_payment_status:
  "list_all2 (\<lambda>old new. new = old \<or> new = PayCompleted)
     (map payment_status (bookings s))
     (map payment_status (bookings (snd (confirm_payment stored_as bid pid pm now s))))"
  by (auto simp: confirm_payment_def list_all2_map1 list_all2_map2 list_all2_same
      split: list.splits option.splits)

text \<open>
  C10. Cancel and the sweep leave the payment_status of every booking row as it was; in
  particular the booking Cancel read and cancelled still has payment_status completed
  if it had it before. Of the four handlers that write the bookings table, Reserve
  only appends a row with payment_status pending and confirm-payment only writes
  completed, so no handler writes refunded.
\<close>

theorem payment_status_untouched:
  "map payment_status (bookings (snd (cancel bid uid now s))) = map payment_status (bookings s) \<and>
   map payment_status (bookings (snd (cleanup_expired select_now update_now s)))
     = map payment_status (bookings s) \<and>
   (\<forall>bk rest refund s'.
      filter (\<lambda>b. b_id b = bid \<and> user_id b = uid) (bookings s) = bk # rest \<and>
      payment_status bk = PayCompleted \<and> cancel bid uid now s = (Inr refund, s') \<longrightarrow>
      filter (\<lambda>b. b_id b = bid \<and> user_id b = uid) (bookings s')
        = map (\<lambda>b. b\<lparr>status := Cancelled\<rparr>) (bk # rest) \<and>
      payment_status (bk\<lparr>status := Cancelled\<rparr>) = PayCompleted) \<and>
   (\<exists>new. map payment_status
             (bookings (snd (reserve userId eventId ticketCount tok ref t1 t2 t3 s))) =
           map payment_status (bookings s) @ new \<and> list_all (\<lambda>p. p = PayPending) new) \<and>
   list_all2 (\<lambda>old new. new = old \<or> new = PayCompleted)
     (map payment_status (bookings s))
     (map payment_status (bookings (snd (confirm_payment stored_as bid pid pm sql_now s))))"
proof -
  have c: "map payment_status (bookings (snd (cancel bid uid now s)))
      = map payment_status (bookings s)"
    by (auto simp: cancel_def split: list.splits option.splits)
  have x: "map payment_status (bookings (snd (cleanup_expired select_now update_now s)))
      = map payment_status (bookings s)"
    by (auto simp: cleanup_expired_def Let_def)
  have k: "\<forall>bk rest refund s'.
      filter (\<lambda>b. b_id b = bid \<and> user_id b = uid) (bookings s) = bk # rest \<and>
      payment_status bk = PayCompleted \<and> cancel bid uid now s = (Inr refund, s') \<longrightarrow>
      filter (\<lambda>b. b_id b = bid \<and> user_id b = uid) (bookings s')
        = map (\<lambda>b. b\<lparr>status := Cancelled\<rparr>) (bk # rest) \<and>
      payment_status (bk\<lparr>status := Cancelled\<rparr>) = PayCompleted"
  proof (intro allI impI, elim conjE)
    fix bk rest refund s'
    assume f: "filter (\<lambda>b. b_id b = bid \<and> user_id b = uid) (bookings s) = bk # rest"
      and p: "payment_status bk = PayCompleted"
      and ok: "cancel bid uid now s = (Inr refund, s')"
    have "bookings s' = map (\<lambda>b. if b_id b = bid then b\<lparr>status := Cancelled\<rparr> else b) (bookings s)"
      using f ok by (auto simp: cancel_def split: if_splits option.splits)
    then have "filter (\<lambda>b. b_id b = bid \<and> user_id b = uid) (bookings s')
        = map (\<lambda>b. b\<lparr>status := Cancelled\<rparr>) (bk # rest)"
      using filter_updated_rows [of "\<lambda>b. b_id b = bid \<and> user_id b = uid" "\<lambda>b. b_id b = bid"
          "\<lambda>b. b\<lparr>status := Cancelled\<rparr>" "bookings s"]
      by (simp add: f)
    then show "filter (\<lambda>b. b_id b = bid \<and> user_id b = uid) (bookings s')
        = map (\<lambda>b. b\<lparr>status := Cancelled\<rparr>) (bk # rest) \<and>
      payment_status (bk\<lparr>status := Cancelled\<rparr>) = PayCompleted"
      using p by simp
  qed
  show ?thesis
    using c x k reserve_payment_status confirm_payment_status by blast
qed

theorem payment_status_untouched_witness:
  "map payment_status (bookings paid) = [PayCompleted] \<and>
   fst (cancel 1 7 1000000 paid) = Inr 10000 \<and>
   map status (bookings (snd (cancel 1 7 1000000 paid))) = [Cancelled] \<and>
   map payment_status (bookings (snd (cancel 1 7 1000000 paid))) = [PayCompleted] \<and>
   map payment_status (bookings (snd (cleanup_expired 902000 902000 two_unpaid)))
     = [PayPending, PayPending]"
  using
    payment_status_untouched [of 1 7 1000000 paid 0 0 None None None "''t''" "''BK''" 0 0 0
      declared_columns "''PAY''" "''credit_card''" 0]
    payment_status_untouched [of 1 7 1000000 two_unpaid 902000 902000 None None None "''t''"
      "''BK''" 0 0 0 declared_columns "''PAY''" "''credit_card''" 0]
  by (simp add: paid_def two_unpaid_def concert_def booking_a_def arena_def booking_b_def
      booking_c_def cancel_def cancel_blocked_def)

section \<open>Payment worker: bounded retry\<close>

lemma retryCount_of_counter:
  "retryCount_of \<lparr>content = pd, headers = Some (Some c)\<rparr> = c"
  by (simp add: retryCount_of_def)

lemma requeued_raised:
  "requeued (processPayment msg Raised) =
     (if retryCount_of msg < 3
      then [\<lparr>content = content msg, headers = Some (Some (retryCount_of msg + 1))\<rparr>] else [])"
  by (simp add: processPayment_def Let_def List.map_filter_simps)

lemma requeued_settled: "out \<noteq> Raised \<Longrightarrow> requeued (processPayment msg out) = []"
  by (cases out) (simp_all add: processPayment_def List.map_filter_simps)

lemma processings_bound:
  "0 \<le> retryCount_of msg \<Longrightarrow> int (processings outs msg) \<le> max 1 (4 - retryCount_of msg)"
proof (induction outs arbitrary: msg)
  case Nil
  then show ?case by simp
next
  case (Cons out outs)
  show ?case
  proof (cases "out = Raised \<and> retryCount_of msg < 3")
    case True
    let ?m = "\<lparr>content = content msg, headers = Some (Some (retryCount_of msg + 1))\<rparr>"
    have rc: "retryCount_of ?m = retryCount_of msg + 1"
      by (rule retryCount_of_counter)
    have "int (processings outs ?m) \<le> max 1 (4 - retryCount_of ?m)"
      using Cons.prems by (intro Cons.IH) (simp add: rc)
    then show ?thesis
      using True Cons.prems by (simp add: requeued_raised rc)
  next
    case False
    then have "requeued (processPayment msg out) = []"
      by (cases "out = Raised") (auto simp: requeued_raised requeued_settled)
    then show ?thesis by simp
  qed
qed

text \<open>
  C7. When the processing of a message raises: the retry counter is 0 when the headers
  or the counter are absent; with a counter below 3 the worker does nothing at once
  and, after 5000 ms times the counter plus one, sends the same payload to
  payment_processing with the counter plus one and then acknowledges the message; with
  a counter of 3 or more it only acknowledges. The message that comes back carries the
  same payload and a counter exactly one higher, so a message of the booking service
  (no counter) is processed at most 4 times, however its processings end.
\<close>

theorem retry_at_most_three_times:
  "(headers msg = None \<or> headers msg = Some None \<longrightarrow> retryCount_of msg = 0) \<and>
   (retryCount_of msg < 3 \<longrightarrow>
      processPayment msg Raised =
        [Later (5000 * (retryCount_of msg + 1))
           [SendToQueue ''payment_processing'' (PaymentWork (content msg))
              (Some (retryCount_of msg + 1)),
            Ack msg]] \<and>
      (\<exists>msg'. requeued (processPayment msg Raised) = [msg'] \<and> content msg' = content msg \<and>
          retryCount_of msg' = retryCount_of msg + 1)) \<and>
   (3 \<le> retryCount_of msg \<longrightarrow>
      processPayment msg Raised = [Now (Ack msg)] \<and> requeued (processPayment msg Raised) = []) \<and>
   (0 \<le> retryCount_of msg \<longrightarrow> processings outs msg \<le> 4)"
proof -
  have bound: "0 \<le> retryCount_of msg \<longrightarrow> processings outs msg \<le> 4"
    using processings_bound [of msg outs] by auto
  have absent: "headers msg = None \<or> headers msg = Some None \<longrightarrow> retryCount_of msg = 0"
    by (auto simp: retryCount_of_def)
  have again: "retryCount_of msg < 3 \<longrightarrow>
      processPayment msg Raised =
        [Later (5000 * (retryCount_of msg + 1))
           [SendToQueue ''payment_processing'' (PaymentWork (content msg))
              (Some (retryCount_of msg + 1)),
            Ack msg]] \<and>
      (\<exists>msg'. requeued (processPayment msg Raised) = [msg'] \<and> content msg' = content msg \<and>
          retryCount_of msg' = retryCount_of msg + 1)"
    by (simp add: requeued_raised processPayment_def Let_def retryCount_of_counter)
  have drop: "3 \<le> retryCount_of msg \<longrightarrow>
      processPayment msg Raised = [Now (Ack msg)] \<and> requeued (processPayment msg Raised) = []"
    by (simp add: requeued_raised processPayment_def Let_def)
  show ?thesis
    using bound absent again drop by blast
qed

theorem retry_at_most_three_times_witness:
  "retryCount_of \<lparr>content = work_a, headers = None\<rparr> = 0 \<and>
   processPayment \<lparr>content = work_a, headers = None\<rparr> Raised =
     [Later 5000 [SendToQueue ''payment_processing'' (PaymentWork work_a) (Some 1),
                  Ack \<lparr>content = work_a, headers = None\<rparr>]] \<and>
   processPayment \<lparr>content = work_a, headers = Some (Some 2)\<rparr> Raised =
     [Later 15000 [SendToQueue ''payment_processing'' (PaymentWork work_a) (Some 3),
                   Ack \<lparr>content = work_a, headers = Some (Some 2)\<rparr>]] \<and>
   processPayment \<lparr>content = work_a, headers = Some (Some 3)\<rparr> Raised =
     [Now (Ack \<lparr>content = work_a, headers = Some (Some 3)\<rparr>)] \<and>
   processings [Raised, Raised, Raised, Raised, Raised, Raised]
     \<lparr>content = work_a, headers = None\<rparr> = 4"
  using
    retry_at_most_three_times [of "\<lparr>content = work_a, headers = None\<rparr>"
      "[Raised, Raised, Raised, Raised, Raised, Raised]"]
    retry_at_most_three_times [of "\<lparr>content = work_a, headers = Some (Some 2)\<rparr>" "[]"]
    retry_at_most_three_times [of "\<lparr>content = work_a, headers = Some (Some 3)\<rparr>" "[]"]
  by (simp add: retryCount_of_counter requeued_raised)

section \<open>The inventory equation under Reserve, confirm-payment and Cancel\<close>

lemma booked_held: "booked eid bs = sum_list (map (tickets_held eid) bs)"
  unfolding booked_def by (induction bs) (auto simp: tickets_held_def)

lemma booked_snoc: "booked eid (bs @ [b]) = booked eid bs + tickets_held eid b"
  by (simp add: booked_held)

text \<open>
  The equation survives when an event gets \<open>n\<close> tickets back and its bookings hold
  \<open>n\<close> fewer.
\<close>

lemma inventory_ok_returned:
  assumes "inventory_ok s"
    and "\<And>e. booked e bs' = booked e (bookings s) - (if e = eid then n else 0)"
  shows "inventory_ok (s\<lparr>bookings := bs', events := add_available eid n (events s)\<rparr>)"
proof -
  have "available_tickets e + booked (e_id e) (bookings s) = total_tickets e"
    if "e \<in> set (events s)" for e
    using assms(1) that by (simp add: inventory_ok_def list_all_iff)
  then have "\<forall>e \<in> set (events s).
      available_tickets
          (if e_id e = eid then e\<lparr>available_tickets := available_tickets e + n\<rparr> else e)
        + booked
            (e_id (if e_id e = eid then e\<lparr>available_tickets := available_tickets e + n\<rparr> else e))
            bs'
      = total_tickets
          (if e_id e = eid then e\<lparr>available_tickets := available_tickets e + n\<rparr> else e)"
    by (auto simp: assms(2))
  then have "list_all (\<lambda>e. available_tickets e + booked (e_id e) bs' = total_tickets e)
      (add_available eid n (events s))"
    unfolding add_available_def list_all_iff set_map by blast
  then show ?thesis by (simp add: inventory_ok_def)
qed

lemma reserve_tx_success:
  assumes "fst (reserve_tx u e n ref t1 t2 t3 s) = Inr ok"
  shows "snd (reserve_tx u e n ref t1 t2 t3 s) =
       s\<lparr>bookings := bookings s @
            [\<lparr>b_id = next_booking_id s, user_id = u, event_id = e, ticket_count = n,
              total_amount = r_totalAmount ok, booking_reference = ref, status = Pending,
              payment_status = PayPending, created_at = t2,
              expires_at = t2 + 15 * 60 * 1000\<rparr>],
         next_booking_id := next_booking_id s + 1,
         events := add_available e (- n) (events s)\<rparr>"
  using assms by (auto simp: reserve_tx_def Let_def split: list.splits if_splits)

lemma reserve_tx_inventory:
  assumes "inventory_ok s"
  shows "inventory_ok (snd (reserve_tx u e n ref t1 t2 t3 s))"
proof (cases "fst (reserve_tx u e n ref t1 t2 t3 s)")
  case (Inl err)
  then show ?thesis
    using assms reserve_tx_error [of u e n ref t1 t2 t3 s err] by simp
next
  case (Inr ok)
  then have s': "snd (reserve_tx u e n ref t1 t2 t3 s) =
       s\<lparr>bookings := bookings s @
            [\<lparr>b_id = next_booking_id s, user_id = u, event_id = e, ticket_count = n,
              total_amount = r_totalAmount ok, booking_reference = ref, status = Pending,
              payment_status = PayPending, created_at = t2,
              expires_at = t2 + 15 * 60 * 1000\<rparr>],
         next_booking_id := next_booking_id s + 1,
         events := add_available e (- n) (events s)\<rparr>"
    (is "_ = s\<lparr>bookings := _ @ [?row], next_booking_id := _, events := _\<rparr>")
    by (rule reserve_tx_success)
  have "booked x (bookings s @ [?row]) = booked x (bookings s) - (if x = e then - n else 0)"
    for x
    by (simp add: booked_snoc tickets_held_def holds_tickets_def)
  then have "inventory_ok
      (s\<lparr>bookings := bookings s @ [?row], events := add_available e (- n) (events s)\<rparr>)"
    by (rule inventory_ok_returned [OF assms])
  then show ?thesis by (simp add: s' inventory_ok_def)
qed

lemma reserve_inventory:
  assumes "inventory_ok s"
  shows "inventory_ok (snd (reserve userId eventId ticketCount tok ref t1 t2 t3 s))"
proof -
  consider (tx) u e n where
      "reserve userId eventId ticketCount tok ref t1 t2 t3 s = reserve_tx u e n ref t1 t2 t3 s"
    | (same) "snd (reserve userId eventId ticketCount tok ref t1 t2 t3 s) = s"
    using reserve_either [of userId eventId ticketCount tok ref t1 t2 t3 s] by blast
  then show ?thesis
  proof cases
    case tx
    then show ?thesis
      using reserve_tx_inventory [OF assms, of u e n ref t1 t2 t3] by simp
  next
    case same
    then show ?thesis using assms by simp
  qed
qed

text \<open>
  The primary key: no two booking rows share an id, so the row a handler read is the
  only row its \<^verbatim>\<open>UPDATE bookings .. WHERE id = ?\<close> changes.
\<close>

lemma booked_update_row:
  assumes "distinct (map b_id bs)" "bk \<in> set bs"
  shows "booked eid (map (\<lambda>b. if b_id b = b_id bk then g b else b) bs)
           = booked eid bs - tickets_held eid bk + tickets_held eid (g bk)"
  using assms
proof (induction bs)
  case Nil
  then show ?case by simp
next
  case (Cons x xs)
  show ?case
  proof (cases "x = bk")
    case True
    then have "b_id bk \<notin> b_id ` set xs" using Cons.prems by simp
    then have "\<forall>b \<in> set xs. b_id b \<noteq> b_id bk" by (metis imageI)
    then have "map (\<lambda>b. if b_id b = b_id bk then g b else b) xs = xs"
      by (intro map_idI) simp
    then show ?thesis using True by (simp add: booked_held)
  next
    case False
    then have "bk \<in> set xs" using Cons.prems by simp
    moreover have "b_id x \<noteq> b_id bk" using Cons.prems \<open>bk \<in> set xs\<close> by auto
    ultimately show ?thesis using Cons by (simp add: booked_held)
  qed
qed

lemma confirm_payment_inventory:
  assumes "inventory_ok s" "distinct (map b_id (bookings s))"
  shows "inventory_ok (snd (confirm_payment stored_as bid pid pm now s))"
proof (cases "filter (\<lambda>b. b_id b = bid) (bookings s)")
  case Nil
  then show ?thesis using assms by (simp add: confirm_payment_def)
next
  case (Cons bk rest)
  then have "bk \<in> set (filter (\<lambda>b. b_id b = bid) (bookings s))" by simp
  then have bk: "bk \<in> set (bookings s)" "b_id bk = bid" by auto
  show ?thesis
  proof (cases "status bk = Pending")
    case True
    have "booked eid (map (\<lambda>b. if b_id b = bid
              then b\<lparr>status := Confirmed, payment_status := PayCompleted\<rparr> else b) (bookings s))
        = booked eid (bookings s)" for eid
      using booked_update_row [OF assms(2) bk(1), of eid
          "\<lambda>b. b\<lparr>status := Confirmed, payment_status := PayCompleted\<rparr>"] True bk(2)
      by (simp add: tickets_held_def holds_tickets_def)
    then show ?thesis using assms(1) Cons True
      by (simp add: confirm_payment_def inventory_ok_def split: option.splits)
  next
    case False
    then show ?thesis using assms Cons by (simp add: confirm_payment_def)
  qed
qed

text \<open>Cancel keeps the equation when the booking it read is not an expired one.\<close>

lemma cancel_inventory:
  assumes "inventory_ok s" "distinct (map b_id (bookings s))"
    and "filter (\<lambda>b. b_id b = bid \<and> user_id b = uid) (bookings s) = bk # rest"
    and "status bk \<noteq> Expired"
  shows "inventory_ok (snd (cancel bid uid now s))"
proof -
  have "bk \<in> set (filter (\<lambda>b. b_id b = bid \<and> user_id b = uid) (bookings s))"
    using assms(3) by simp
  then have bk: "bk \<in> set (bookings s)" "b_id bk = bid" by auto
  show ?thesis
  proof (cases "fst (cancel bid uid now s)")
    case (Inl err)
    then have "snd (cancel bid uid now s) = s"
      by (auto simp: cancel_def split: list.splits if_splits option.splits)
    then show ?thesis using assms(1) by simp
  next
    case (Inr refund)
    then have live: "holds_tickets bk"
      using assms(3,4)
      by (cases "status bk")
        (auto simp: cancel_def holds_tickets_def split: if_splits option.splits)
    have s': "snd (cancel bid uid now s) =
        s\<lparr>bookings :=
             map (\<lambda>b. if b_id b = bid then b\<lparr>status := Cancelled\<rparr> else b) (bookings s),
          events := add_available (event_id bk) (ticket_count bk) (events s)\<rparr>"
      using Inr assms(3) by (auto simp: cancel_def split: if_splits option.splits)
    have "booked eid
            (map (\<lambda>b. if b_id b = bid then b\<lparr>status := Cancelled\<rparr> else b) (bookings s))
        = booked eid (bookings s) - (if eid = event_id bk then ticket_count bk else 0)" for eid
      using booked_update_row [OF assms(2) bk(1), of eid "\<lambda>b. b\<lparr>status := Cancelled\<rparr>"]
        live bk(2)
      by (simp add: tickets_held_def holds_tickets_def)
    then have "inventory_ok
        (s\<lparr>bookings :=
             map (\<lambda>b. if b_id b = bid then b\<lparr>status := Cancelled\<rparr> else b) (bookings s),
           events := add_available (event_id bk) (ticket_count bk) (events s)\<rparr>)"
      by (rule inventory_ok_returned [OF assms(1)])
    then show ?thesis by (simp add: s')
  qed
qed

section \<open>Status transitions\<close>

text \<open>
  Row by row, what each handler does to the bookings it was given: the sweep turns
  pending into expired, confirm-payment pending into confirmed, and Cancel turns
  pending, confirmed and also expired into cancelled. Reserve changes no row
  (\<open>reserve_tx_success\<close>).
\<close>

lemma first_row_is_only_row:
  assumes "distinct (map f xs)" "filter P xs = y # ys" "\<And>x. P x \<Longrightarrow> f x = k"
    and "x \<in> set xs" "f x = k"
  shows "x = y"
proof -
  have "y \<in> set (filter P xs)" using assms(2) by simp
  then have "y \<in> set xs" "f y = k" using assms(3) by auto
  moreover have "inj_on f (set xs)" using assms(1) by (simp add: distinct_map)
  ultimately show ?thesis using assms(4,5) by (auto dest: inj_onD)
qed

lemma list_all2_updated:
  "(\<And>x. x \<in> set xs \<Longrightarrow> R x (f x)) \<Longrightarrow> list_all2 R xs (map f xs)"
  by (simp add: list_all2_map2 list_all2_same)

lemma cleanup_expired_transitions:
  "list_all2 (\<lambda>b b'. b' = b \<or> (status b = Pending \<and> b' = b\<lparr>status := Expired\<rparr>))
     (bookings s) (bookings (snd (cleanup_expired t1 t2 s)))"
  by (auto simp: cleanup_expired_def Let_def is_expired_def list_all2_same
      intro!: list_all2_updated split: if_splits)

lemma confirm_payment_transitions:
  assumes "distinct (map b_id (bookings s))"
  shows "list_all2
     (\<lambda>b b'. b' = b \<or>
        (status b = Pending \<and> b' = b\<lparr>status := Confirmed, payment_status := PayCompleted\<rparr>))
     (bookings s) (bookings (snd (confirm_payment stored_as bid pid pm now s)))"
proof (cases "filter (\<lambda>b. b_id b = bid) (bookings s)")
  case Nil
  then show ?thesis by (simp add: confirm_payment_def list_all2_same)
next
  case (Cons bk rest)
  have only: "b = bk" if "b \<in> set (bookings s)" "b_id b = bid" for b
    using first_row_is_only_row [OF assms Cons _ that] by simp
  show ?thesis
  proof (cases "status bk = Pending")
    case True
    then show ?thesis using Cons only
      by (auto simp: confirm_payment_def list_all2_same intro!: list_all2_updated
          split: if_splits option.splits)
  next
    case False
    then show ?thesis using Cons by (simp add: confirm_payment_def list_all2_same)
  qed
qed

lemma cancel_transitions:
  assumes "distinct (map b_id (bookings s))"
  shows "list_all2
     (\<lambda>b b'. b' = b \<or>
        ((status b = Pending \<or> status b = Confirmed \<or> status b = Expired) \<and>
         b' = b\<lparr>status := Cancelled\<rparr>))
     (bookings s) (bookings (snd (cancel bid uid now s)))"
proof (cases "filter (\<lambda>b. b_id b = bid \<and> user_id b = uid) (bookings s)")
  case Nil
  then show ?thesis by (simp add: cancel_def list_all2_same)
next
  case (Cons bk rest)
  have only: "b = bk" if "b \<in> set (bookings s)" "b_id b = bid" for b
    using first_row_is_only_row [OF assms Cons _ that] by simp
  show ?thesis
  proof (cases "fst (cancel bid uid now s)")
    case (Inl err)
    then have "snd (cancel bid uid now s) = s"
      by (auto simp: cancel_def split: list.splits if_splits option.splits)
    then show ?thesis by (simp add: list_all2_same)
  next
    case (Inr refund)
    then have "status bk \<noteq> Cancelled"
      using Cons by (auto simp: cancel_def split: if_splits option.splits)
    then have live: "status bk = Pending \<or> status bk = Confirmed \<or> status bk = Expired"
      by (cases "status bk") simp_all
    have "bookings (snd (cancel bid uid now s)) =
        map (\<lambda>b. if b_id b = bid then b\<lparr>status := Cancelled\<rparr> else b) (bookings s)"
      using Inr Cons by (auto simp: cancel_def split: if_splits option.splits)
    then show ?thesis using live only
      by (auto intro!: list_all2_updated split: if_splits)
  qed
qed

section \<open>How the example states arise\<close>

text \<open>
  The handlers themselves lead to the states used below: user 7 reserves both tickets
  of the concert and never pays, and a sweep after the window expires the booking; users
  7 and 8 reserve tickets of the arena one second apart.
\<close>

lemma swept_is_reached:
  "reserve (Some 7) (Some 1) (Some 2) ''lock-1'' ''BK1000ABCDE'' 1000 1000 1000 box_office
     = (Inr \<lparr>r_bookingId = 1, r_bookingReference = ''BK1000ABCDE'', r_totalAmount = 10000,
             r_ticketCount = 2, r_eventTitle = ''Concert Night 2025'', r_expiresAt = 901000\<rparr>,
        sold_out) \<and>
   cleanup_expired 902000 902000 sold_out = (1, swept)"
  by (simp add: box_office_def sold_out_def swept_def concert_def booking_a_def reserve_def reserve_tx_def acquireLock_def releaseLock_def
      cleanup_expired_def is_expired_def add_available_def)

lemma two_unpaid_is_reached:
  "snd (reserve (Some 8) (Some 2) (Some 3) ''lock-2'' ''BK2000KLMNO'' 2000 2000 2000
     (snd (reserve (Some 7) (Some 2) (Some 2) ''lock-1'' ''BK1000FGHIJ'' 1000 1000 1000
        \<lparr>events = [arena\<lparr>available_tickets := 10\<rparr>], bookings = [], payments = [],
          next_booking_id = 2, next_payment_id = 1, locks = Map.empty\<rparr>)))
   = two_unpaid"
  by (simp add: two_unpaid_def arena_def booking_b_def booking_c_def reserve_def reserve_tx_def acquireLock_def releaseLock_def
      add_available_def)

section \<open>Cancel on an expired booking\<close>

text \<open>
  C2. Cancel rejects a cancelled booking, and a confirmed one within 24 hours of the
  event, but has no branch for an expired one. On the state the sweep left (booking A
  expired, its two tickets back in the pool) the owner's Cancel succeeds with refund 0,
  turns the status from expired to cancelled and adds the two tickets a second time:
  4 available of 2 in total.
\<close>

theorem cancel_accepts_expired_booking:
  "map status (bookings swept) = [Expired] \<and>
   map available_tickets (events swept) = [2] \<and>
   fst (cancel 1 7 1000000 swept) = Inr 0 \<and>
   map status (bookings (snd (cancel 1 7 1000000 swept))) = [Cancelled] \<and>
   map available_tickets (events (snd (cancel 1 7 1000000 swept))) = [4] \<and>
   map total_tickets (events (snd (cancel 1 7 1000000 swept))) = [2]"
  by (simp add: swept_def concert_def booking_a_def cancel_def cancel_blocked_def add_available_def)

text \<open>
  C1. The same call takes a state in which the inventory equation holds to one in which
  it fails.
\<close>

theorem cancel_expired_breaks_inventory:
  "inventory_ok swept \<and>
   fst (cancel 1 7 1000000 swept) = Inr 0 \<and>
   \<not> inventory_ok (snd (cancel 1 7 1000000 swept))"
  by (simp add: swept_def concert_def booking_a_def cancel_def cancel_blocked_def inventory_ok_def booked_def
      holds_tickets_def add_available_def)

section \<open>The sweep\<close>

lemma restore_tickets_sum:
  "restore_tickets sel es =
     map (\<lambda>e. e\<lparr>available_tickets := available_tickets e + returned (e_id e) sel\<rparr>) es"
proof (induction sel arbitrary: es)
  case Nil
  show ?case by (simp add: returned_def)
next
  case (Cons b sel)
  show ?case
    by (simp add: Cons.IH add_available_def returned_def)
qed

lemma booked_marked:
  "booked eid (map (\<lambda>b. if is_expired t b then b\<lparr>status := Expired\<rparr> else b) bs)
     = booked eid bs - returned eid (filter (is_expired t) bs)"
  by (induction bs)
    (auto simp: booked_held tickets_held_def holds_tickets_def is_expired_def returned_def)

text \<open>
  What the sweep does, whatever the two statement times are: nothing when the SELECT
  finds no row; otherwise it reports the number of selected rows, gives every event the
  tickets of its selected rows, and marks the rows the UPDATE matches.
\<close>

lemma cleanup_expired_effect:
  "cleanup_expired t1 t2 s =
     (if filter (is_expired t1) (bookings s) = [] then (0, s)
      else (length (filter (is_expired t1) (bookings s)),
            s\<lparr>events :=
                 map (\<lambda>e. e\<lparr>available_tickets := available_tickets e +
                              returned (e_id e) (filter (is_expired t1) (bookings s))\<rparr>)
                   (events s),
              bookings :=
                map (\<lambda>b. if is_expired t2 b then b\<lparr>status := Expired\<rparr> else b)
                  (bookings s)\<rparr>))"
  by (simp add: cleanup_expired_def Let_def restore_tickets_sum)

text \<open>
  When both statements see the same pending bookings as expired (no window ends between
  the two statement times), the rows marked are the rows selected and the equation is
  kept.
\<close>

lemma cleanup_expired_inventory:
  assumes "inventory_ok s"
    and "\<forall>b \<in> set (bookings s). is_expired t2 b = is_expired t1 b"
  shows "inventory_ok (snd (cleanup_expired t1 t2 s))"
proof -
  let ?sel = "filter (is_expired t1) (bookings s)"
  have same: "map (\<lambda>b. if is_expired t2 b then b\<lparr>status := Expired\<rparr> else b) (bookings s)
      = map (\<lambda>b. if is_expired t1 b then b\<lparr>status := Expired\<rparr> else b) (bookings s)"
    using assms(2) by (intro map_cong) simp_all
  have "available_tickets e + booked (e_id e) (bookings s) = total_tickets e"
    if "e \<in> set (events s)" for e
    using assms(1) that by (simp add: inventory_ok_def list_all_iff)
  then have "\<forall>e \<in> set (events s).
      available_tickets e + returned (e_id e) ?sel
        + (booked (e_id e) (bookings s) - returned (e_id e) ?sel) = total_tickets e"
    by simp
  then have "inventory_ok (s\<lparr>events := restore_tickets ?sel (events s),
      bookings := map (\<lambda>b. if is_expired t1 b then b\<lparr>status := Expired\<rparr> else b) (bookings s)\<rparr>)"
    by (simp add: inventory_ok_def restore_tickets_sum booked_marked list_all_iff)
  then show ?thesis using assms(1)
    by (simp add: cleanup_expired_def Let_def same)
qed

section \<open>The sweep across a clock tick\<close>

text \<open>
  C3. The rows whose tickets are restored are those of the SELECT, the rows marked
  expired are those the UPDATE's own \<^verbatim>\<open>expires_at < NOW()\<close> matches. Booking B's
  window ends at 901000 and booking C's at 902000; with the SELECT at 902000 and the
  UPDATE one second later, the sweep restores B's 2 tickets and reports 1 booking, and
  marks both B and C expired: C's 3 tickets are held by no booking and are not
  available, 7 of 10.
\<close>

theorem sweep_marks_more_than_it_restores:
  "filter (is_expired 902000) (bookings two_unpaid) = [booking_b] \<and>
   fst (cleanup_expired 902000 903000 two_unpaid) = 1 \<and>
   map status (bookings (snd (cleanup_expired 902000 903000 two_unpaid)))
     = [Expired, Expired] \<and>
   map available_tickets (events (snd (cleanup_expired 902000 903000 two_unpaid))) = [7] \<and>
   map total_tickets (events (snd (cleanup_expired 902000 903000 two_unpaid))) = [10] \<and>
   inventory_ok two_unpaid \<and>
   \<not> inventory_ok (snd (cleanup_expired 902000 903000 two_unpaid))"
  by (simp add: two_unpaid_def arena_def booking_b_def booking_c_def cleanup_expired_def is_expired_def add_available_def
      inventory_ok_def booked_def holds_tickets_def)

end
